theory Spec2Isabelle
  imports Complex_Main
begin

section \<open>Parsed workflow documents\<close>

text \<open>
  The visualizer works on the value that \<^verbatim>\<open>json.load\<close> returns. A JSON object is an
  insertion-ordered list of key/value pairs (the keys of a parsed object are distinct),
  an array is a list. A number is an integer or a float; a float is represented by the
  rational it denotes, and the arithmetic on coordinates is exact rational arithmetic:
  rounding, infinities and NaN are outside this model, while the \<^verbatim>\<open>OverflowError\<close> of
  dividing an integer that is too large for a float is part of it. Strings are sequences
  of 8-bit characters and \<^verbatim>\<open>str.lower\<close> acts on the ASCII letters.
\<close>

datatype json =
    JNull
  | JBool bool
  | JInt int
  | JFloat rat
  | JStr string
  | JList "json list"
  | JObj "(string \<times> json) list"

text \<open>The built-in exceptions that the code under study can raise.\<close>

datatype error =
  AttributeError | TypeError | IndexError | KeyError | ValueError | OverflowError

definition and_then :: "error + 'a \<Rightarrow> ('a \<Rightarrow> error + 'b) \<Rightarrow> error + 'b" where
  "and_then m f = (case m of Inl e \<Rightarrow> Inl e | Inr x \<Rightarrow> f x)"

text \<open>\<^verbatim>\<open>d.get(k, default)\<close>: only a dict has the method.\<close>

definition dict_get :: "(string \<times> json) list \<Rightarrow> string \<Rightarrow> json \<Rightarrow> json" where
  "dict_get kvs k d = (case map_of kvs k of None \<Rightarrow> d | Some v \<Rightarrow> v)"

fun py_get :: "json \<Rightarrow> string \<Rightarrow> json \<Rightarrow> error + json" where
  "py_get (JObj kvs) k d = Inr (dict_get kvs k d)"
| "py_get _ k d = Inl AttributeError"

text \<open>\<^verbatim>\<open>d.items()\<close>.\<close>

fun py_items :: "json \<Rightarrow> error + (string \<times> json) list" where
  "py_items (JObj kvs) = Inr kvs"
| "py_items _ = Inl AttributeError"

text \<open>
  \<^verbatim>\<open>for x in v\<close>: a list yields its elements, a string its characters (each a string of
  length one), a dict its keys; nothing else is iterable.
\<close>

fun py_iter :: "json \<Rightarrow> error + json list" where
  "py_iter (JList xs) = Inr xs"
| "py_iter (JStr s) = Inr (map (\<lambda>c. JStr [c]) s)"
| "py_iter (JObj kvs) = Inr (map (\<lambda>kv. JStr (fst kv)) kvs)"
| "py_iter _ = Inl TypeError"

text \<open>Truth value of a parsed value, as \<^verbatim>\<open>if v\<close> and \<^verbatim>\<open>not v\<close> test it.\<close>

fun truthy :: "json \<Rightarrow> bool" where
  "truthy JNull = False"
| "truthy (JBool b) = b"
| "truthy (JInt i) = (i \<noteq> 0)"
| "truthy (JFloat r) = (r \<noteq> 0)"
| "truthy (JStr s) = (s \<noteq> [])"
| "truthy (JList xs) = (xs \<noteq> [])"
| "truthy (JObj kvs) = (kvs \<noteq> [])"

text \<open>
  \<^verbatim>\<open>v[i]\<close> for a literal index \<open>i\<close>. A dict parsed from JSON has string keys only, so an
  integer subscript is a missing key.
\<close>

fun subscript :: "json \<Rightarrow> nat \<Rightarrow> error + json" where
  "subscript (JList xs) i = (if i < length xs then Inr (xs ! i) else Inl IndexError)"
| "subscript (JStr s) i = (if i < length s then Inr (JStr [s ! i]) else Inl IndexError)"
| "subscript (JObj kvs) i = Inl KeyError"
| "subscript _ i = Inl TypeError"

text \<open>Numeric value of an operand of \<^verbatim>\<open>/\<close> and unary \<^verbatim>\<open>-\<close>; \<^verbatim>\<open>bool\<close> is a subclass of \<^verbatim>\<open>int\<close>.\<close>

fun to_num :: "json \<Rightarrow> error + rat" where
  "to_num (JInt i) = Inr (of_int i)"
| "to_num (JFloat r) = Inr r"
| "to_num (JBool b) = Inr (if b then 1 else 0)"
| "to_num _ = Inl TypeError"

text \<open>
  \<^verbatim>\<open>v / 100\<close> for a numeric operand with value \<open>x\<close>. The result is a float. The quotient
  of two integers is rounded to the nearest float and the division raises when that is
  beyond the largest one, which is the case from \<open>2 ^ 1024 - 2 ^ 970\<close> on, halfway
  between the largest float and \<open>2 ^ 1024\<close>; a float or a \<^verbatim>\<open>bool\<close> operand cannot be
  that large.
\<close>

definition float_limit :: int where
  "float_limit = 2 ^ 1024 - 2 ^ 970"

fun too_large :: "json \<Rightarrow> bool" where
  "too_large (JInt i) = (100 * float_limit \<le> \<bar>i\<bar>)"
| "too_large _ = False"

definition div_100 :: "json \<Rightarrow> rat \<Rightarrow> error + rat" where
  "div_100 operand x = (if too_large operand then Inl OverflowError else Inr (x / 100))"

section \<open>Node colours\<close>

definition node_colors :: "(string \<times> string) list" where
  "node_colors =
     [(''trigger'', ''#ff6b6b''),
      (''action'', ''#4ecdc4''),
      (''condition'', ''#ffe66d''),
      (''function'', ''#a8e6cf''),
      (''default'', ''#95a5a6'')]"

text \<open>\<^verbatim>\<open>self.node_colors[k]\<close>.\<close>

definition color_of :: "string \<Rightarrow> error + string" where
  "color_of k = (case map_of node_colors k of None \<Rightarrow> Inl KeyError | Some c \<Rightarrow> Inr c)"

definition lower_char :: "char \<Rightarrow> char" where
  "lower_char c =
     (let n = (of_char c :: nat) in if 65 \<le> n \<and> n \<le> 90 then char_of (n + 32) else c)"

definition lower :: "string \<Rightarrow> string" where
  "lower s = map lower_char s"

fun starts_with :: "string \<Rightarrow> string \<Rightarrow> bool" where
  "starts_with [] s = True"
| "starts_with (p # ps) [] = False"
| "starts_with (p # ps) (c # cs) = (p = c \<and> starts_with ps cs)"

text \<open>\<^verbatim>\<open>sub in s\<close> on strings: \<open>sub\<close> occurs in \<open>s\<close> as a contiguous block.\<close>

fun contains :: "string \<Rightarrow> string \<Rightarrow> bool" where
  "contains sub [] = (sub = [])"
| "contains sub (c # cs) = (starts_with sub (c # cs) \<or> contains sub cs)"

text \<open>
  \<^verbatim>\<open>_get_node_color\<close>. The argument is whatever the descriptor holds under \<^verbatim>\<open>type\<close>;
  only a string has \<^verbatim>\<open>lower\<close>.
\<close>

fun get_node_color :: "json \<Rightarrow> error + string" where
  "get_node_color (JStr node_type) =
     (if contains ''trigger'' (lower node_type) then color_of ''trigger''
      else if contains ''if'' (lower node_type) \<or> contains ''switch'' (lower node_type)
        then color_of ''condition''
      else if contains ''function'' (lower node_type) \<or> contains ''code'' (lower node_type)
        then color_of ''function''
      else if list_ex (\<lambda>term. contains term (lower node_type))
                [''http'', ''webhook'', ''email'', ''slack'', ''telegram'']
        then color_of ''action''
      else color_of ''default'')"
| "get_node_color _ = Inl AttributeError"

section \<open>The directed graph\<close>

text \<open>
  \<^verbatim>\<open>nx.DiGraph\<close> keeps a dict from node to attribute dict and, per node, a dict of
  successors: a node occurs once, and so does an ordered pair of nodes. Dict keys are
  compared by value, so \<^verbatim>\<open>1\<close>, \<^verbatim>\<open>1.0\<close> and \<^verbatim>\<open>True\<close> are one key; lists and dicts are not
  hashable.
\<close>

datatype key = KNone | KNum rat | KStr string

fun hash_key :: "json \<Rightarrow> key option" where
  "hash_key JNull = Some KNone"
| "hash_key (JBool b) = Some (KNum (if b then 1 else 0))"
| "hash_key (JInt i) = Some (KNum (of_int i))"
| "hash_key (JFloat r) = Some (KNum r)"
| "hash_key (JStr s) = Some (KStr s)"
| "hash_key (JList xs) = None"
| "hash_key (JObj kvs) = None"

record attrs =
  label :: json
  ntype :: json
  pos :: "rat \<times> rat"
  color :: string

record digraph =
  g_node :: "(key \<times> attrs) list"
  g_edge :: "(key \<times> key) list"

definition DiGraph :: digraph where
  "DiGraph = \<lparr>g_node = [], g_edge = []\<rparr>"

fun set_attrs :: "key \<Rightarrow> attrs \<Rightarrow> (key \<times> attrs) list \<Rightarrow> (key \<times> attrs) list" where
  "set_attrs k a [] = []"
| "set_attrs k a (p # ps) = (if fst p = k then (k, a) # ps else p # set_attrs k a ps)"

text \<open>
  \<^verbatim>\<open>G.add_node(n, **attr)\<close>: an unhashable \<open>n\<close> fails the membership test, a new
  \<^verbatim>\<open>None\<close> is rejected (networkx 2.8 and later, as \<^verbatim>\<open>setup.py\<close> requires), a new node
  is appended, and a node that exists keeps its place and has its attributes replaced
  (the call passes all four of them).
\<close>

definition add_node :: "digraph \<Rightarrow> json \<Rightarrow> attrs \<Rightarrow> error + digraph" where
  "add_node G n a =
     (case hash_key n of
        None \<Rightarrow> Inl TypeError
      | Some k \<Rightarrow>
          if map_of (g_node G) k = None then
            if k = KNone then Inl ValueError
            else Inr (G\<lparr>g_node := g_node G @ [(k, a)]\<rparr>)
          else Inr (G\<lparr>g_node := set_attrs k a (g_node G)\<rparr>))"

text \<open>\<^verbatim>\<open>G.has_node(n)\<close> answers \<^verbatim>\<open>False\<close> for an unhashable \<open>n\<close>.\<close>

definition has_node :: "digraph \<Rightarrow> json \<Rightarrow> bool" where
  "has_node G n =
     (case hash_key n of None \<Rightarrow> False | Some k \<Rightarrow> map_of (g_node G) k \<noteq> None)"

text \<open>
  \<^verbatim>\<open>G.add_edge(u, v)\<close> for two nodes of the graph, which is how the builder calls it: the
  pair is entered in the successor dict of \<open>u\<close>; entering it again changes nothing.
\<close>

definition add_edge :: "digraph \<Rightarrow> key \<Rightarrow> key \<Rightarrow> digraph" where
  "add_edge G u v =
     (if (u, v) \<in> set (g_edge G) then G else G\<lparr>g_edge := g_edge G @ [(u, v)]\<rparr>)"

section \<open>Building the graph\<close>

text \<open>
  The body of \<^verbatim>\<open>for node in nodes\<close>. The four lookups come first, then the arguments
  of the call are evaluated in the order they are written, then \<^verbatim>\<open>add_node\<close> runs.
  \<^verbatim>\<open>-position[1]/100\<close> negates first and divides second; an operand that is not a
  number raises \<^verbatim>\<open>TypeError\<close>, an integer that is too large raises in the division.
\<close>

definition node_args :: "json \<Rightarrow> error + json \<times> attrs" where
  "node_args node =
     and_then (py_get node ''id'' JNull) (\<lambda>node_id.
     and_then (py_get node ''name'' (JStr ''Unnamed'')) (\<lambda>node_name.
     and_then (py_get node ''type'' (JStr ''unknown'')) (\<lambda>node_type.
     and_then (py_get node ''position'' (JList [JInt 0, JInt 0])) (\<lambda>position.
     and_then (subscript position 0) (\<lambda>p0.
     and_then (to_num p0) (\<lambda>x.
     and_then (div_100 p0 x) (\<lambda>px.
     and_then (subscript position 1) (\<lambda>p1.
     and_then (to_num p1) (\<lambda>y.
     and_then (div_100 p1 (- y)) (\<lambda>py.
     and_then (get_node_color node_type) (\<lambda>c.
       Inr (node_id,
            \<lparr>label = node_name, ntype = node_type, pos = (px, py), color = c\<rparr>)
     )))))))))))"

definition node_step :: "digraph \<Rightarrow> json \<Rightarrow> error + digraph" where
  "node_step G node =
     and_then (node_args node) (\<lambda>ia. add_node G (fst ia) (snd ia))"

fun add_nodes :: "digraph \<Rightarrow> json list \<Rightarrow> error + digraph" where
  "add_nodes G [] = Inr G"
| "add_nodes G (node # rest) = and_then (node_step G node) (\<lambda>G'. add_nodes G' rest)"

text \<open>The body of \<^verbatim>\<open>for connection in connection_list\<close>.\<close>

definition connection_step :: "digraph \<Rightarrow> string \<Rightarrow> json \<Rightarrow> digraph" where
  "connection_step G source_node connection =
     (case connection of
        JObj kvs \<Rightarrow>
          (let target_node = dict_get kvs ''node'' JNull in
           if truthy target_node \<and> has_node G (JStr source_node) \<and> has_node G target_node
           then add_edge G (KStr source_node) (the (hash_key target_node))
           else G)
      | _ \<Rightarrow> G)"

text \<open>The body of \<^verbatim>\<open>for connection_list in output_connections\<close>.\<close>

definition connection_list_step :: "digraph \<Rightarrow> string \<Rightarrow> json \<Rightarrow> digraph" where
  "connection_list_step G source_node connection_list =
     (case connection_list of
        JList cs \<Rightarrow> foldl (\<lambda>H c. connection_step H source_node c) G cs
      | _ \<Rightarrow> G)"

text \<open>The body of \<^verbatim>\<open>for output_type, output_connections in source_outputs.items()\<close>.\<close>

definition output_step :: "digraph \<Rightarrow> string \<Rightarrow> string \<times> json \<Rightarrow> digraph" where
  "output_step G source_node out =
     (case snd out of
        JList ls \<Rightarrow> foldl (\<lambda>H l. connection_list_step H source_node l) G ls
      | _ \<Rightarrow> G)"

text \<open>\<^verbatim>\<open>for source_node, source_outputs in connections.items()\<close>.\<close>

fun add_edges :: "digraph \<Rightarrow> (string \<times> json) list \<Rightarrow> error + digraph" where
  "add_edges G [] = Inr G"
| "add_edges G ((source_node, source_outputs) # rest) =
     and_then (py_items source_outputs) (\<lambda>outs.
       add_edges (foldl (\<lambda>H out. output_step H source_node out) G outs) rest)"

definition create_workflow_graph :: "json \<Rightarrow> error + digraph" where
  "create_workflow_graph workflow_data =
     and_then (py_get workflow_data ''nodes'' (JList [])) (\<lambda>nodes.
     and_then (py_get workflow_data ''connections'' (JObj [])) (\<lambda>connections.
     and_then (py_iter nodes) (\<lambda>ns.
     and_then (add_nodes DiGraph ns) (\<lambda>G.
     and_then (py_items connections) (\<lambda>cs.
       add_edges G cs)))))"

section \<open>Resolving the layout\<close>

text \<open>
  The positions that the primary renderer draws with: the \<^verbatim>\<open>pos\<close> attributes of the
  nodes, and the spring layout of networkx when that dict is empty. The spring layout
  starts from random positions, so only the fact that it was asked for is recorded.
\<close>

datatype layout = Positions "(key \<times> rat \<times> rat) list" | Spring_layout

definition get_node_attributes_pos :: "digraph \<Rightarrow> (key \<times> rat \<times> rat) list" where
  "get_node_attributes_pos G = map (\<lambda>ka. (fst ka, pos (snd ka))) (g_node G)"

definition resolve_pos :: "digraph \<Rightarrow> layout" where
  "resolve_pos G =
     (let p = get_node_attributes_pos G in
      if p = [] \<or> length p = 0 then Spring_layout else Positions p)"

section \<open>Rendering\<close>

text \<open>
  What the drawing libraries and the file system do is not under study: whether the
  pyplot and networkx drawing calls (with \<^verbatim>\<open>savefig\<close>) complete and whether \<^verbatim>\<open>img.save\<close>
  completes are parameters, and so is \<^verbatim>\<open>Path.with_suffix\<close> (it raises on a path without
  a name) where a default output path is derived. A renderer answers with its return
  value and the events that matter here: the graph drawn at its resolved positions, the
  rectangles drawn on the in-memory image and the files written.
\<close>

record env =
  mpl_ok :: bool
  save_ok :: bool

datatype event =
    Draw_graph layout
  | Rectangle int int int int string
  | Node_text string
  | Write_file string

definition writes :: "event list \<Rightarrow> string list" where
  "writes evs = concat (map (\<lambda>e. case e of Write_file p \<Rightarrow> [p] | _ \<Rightarrow> []) evs)"

definition rectangles :: "event list \<Rightarrow> event list" where
  "rectangles evs = filter (\<lambda>e. case e of Rectangle a b c d col \<Rightarrow> True | _ \<Rightarrow> False) evs"

text \<open>\<^verbatim>\<open>len(v)\<close>.\<close>

fun py_len :: "json \<Rightarrow> error + nat" where
  "py_len (JStr s) = Inr (length s)"
| "py_len (JList xs) = Inr (length xs)"
| "py_len (JObj kvs) = Inr (length kvs)"
| "py_len _ = Inl TypeError"

text \<open>
  One entry of the \<^verbatim>\<open>labels\<close> comprehension: the length of the label is taken first;
  when it exceeds 10 the default \<^verbatim>\<open>node[:8] + '...'\<close> is evaluated, which needs a
  string node, and the stored label is the value either way.
\<close>

definition label_entry :: "key \<times> attrs \<Rightarrow> error + key \<times> json" where
  "label_entry ka =
     and_then (py_len (label (snd ka))) (\<lambda>n.
       if n > 10 then
         (case fst ka of KStr s \<Rightarrow> Inr (fst ka, label (snd ka)) | _ \<Rightarrow> Inl TypeError)
       else Inr (fst ka, label (snd ka)))"

fun label_entries :: "(key \<times> attrs) list \<Rightarrow> error + (key \<times> json) list" where
  "label_entries [] = Inr []"
| "label_entries (ka # rest) =
     and_then (label_entry ka) (\<lambda>l.
     and_then (label_entries rest) (\<lambda>ls. Inr (l # ls)))"

text \<open>
  \<^verbatim>\<open>visualize_workflow_matplotlib\<close>: every exception is caught and turned into the
  answer \<^verbatim>\<open>None\<close>.
\<close>

definition visualize_workflow_matplotlib ::
    "env \<Rightarrow> json \<Rightarrow> string option \<Rightarrow> bool \<Rightarrow> string option \<times> event list" where
  "visualize_workflow_matplotlib E workflow_data output_path show =
     (case create_workflow_graph workflow_data of
        Inl e \<Rightarrow> (None, [])
      | Inr G \<Rightarrow>
          if length (g_node G) = 0 then (None, [])
          else
            (case label_entries (g_node G) of
               Inl e \<Rightarrow> (None, [])
             | Inr labels \<Rightarrow>
                 if \<not> mpl_ok E then (None, [])
                 else
                   (case output_path of
                      None \<Rightarrow> (None, [Draw_graph (resolve_pos G)])
                    | Some p \<Rightarrow> (Some p, [Draw_graph (resolve_pos G), Write_file p]))))"

text \<open>
  \<^verbatim>\<open>nodes[:20]\<close> followed by the iteration over it; a list and a string can be sliced,
  nothing else that JSON gives can.
\<close>

fun first_20 :: "json \<Rightarrow> error + json list" where
  "first_20 (JList xs) = Inr (take 20 xs)"
| "first_20 (JStr s) = Inr (map (\<lambda>c. JStr [c]) (take 20 s))"
| "first_20 _ = Inl TypeError"

text \<open>
  The body of \<^verbatim>\<open>for i, node in enumerate(nodes[:20])\<close>. It answers with the events of
  the iteration and whether it completed; the rectangle is drawn before the name is
  looked at, and a name that is not a string cannot be measured or drawn. Measuring and
  drawing the text of a string is taken to complete.
\<close>

definition draw_node :: "int \<Rightarrow> nat \<Rightarrow> json \<Rightarrow> event list \<times> bool" where
  "draw_node cols i node =
     (let node_width = 120; node_height = 40; margin = 20; start_y = 60;
          col = int i mod cols;
          row = int i div cols;
          x = margin + col * (node_width + margin);
          y = start_y + row * (node_height + margin)
      in case and_then (py_get node ''type'' (JStr ''unknown'')) get_node_color of
           Inl e \<Rightarrow> ([], False)
         | Inr c \<Rightarrow>
             (case py_get node ''name'' (JStr ''Unnamed'') of
                Inr (JStr node_name) \<Rightarrow>
                  ([Rectangle x y (x + node_width) (y + node_height) c,
                    Node_text (if length node_name > 15 then take 12 node_name @ ''...''
                               else node_name)], True)
              | _ \<Rightarrow> ([Rectangle x y (x + node_width) (y + node_height) c], False)))"

fun draw_nodes :: "int \<Rightarrow> nat \<Rightarrow> json list \<Rightarrow> event list \<times> bool" where
  "draw_nodes cols i [] = ([], True)"
| "draw_nodes cols i (node # rest) =
     (case draw_node cols i node of
        (evs, False) \<Rightarrow> (evs, False)
      | (evs, True) \<Rightarrow>
          (case draw_nodes cols (Suc i) rest of (evs', ok) \<Rightarrow> (evs @ evs', ok)))"

text \<open>
  \<^verbatim>\<open>create_simple_diagram\<close>: \<^verbatim>\<open>Image.new\<close> rejects a negative size; every exception is
  caught and turned into the answer \<^verbatim>\<open>False\<close>.
\<close>

definition create_simple_diagram ::
    "env \<Rightarrow> json \<Rightarrow> string \<Rightarrow> int \<Rightarrow> int \<Rightarrow> bool \<times> event list" where
  "create_simple_diagram E workflow_data output_path width height =
     (if width < 0 \<or> height < 0 then (False, [])
      else
        (case py_get workflow_data ''nodes'' (JList []) of
           Inl e \<Rightarrow> (False, [])
         | Inr nodes \<Rightarrow>
             if \<not> truthy nodes then (False, [])
             else
               (let node_width = 120; margin = 20;
                    cols = max 1 ((width - 2 * margin) div (node_width + margin))
                in case first_20 nodes of
                     Inl e \<Rightarrow> (False, [])
                   | Inr ns \<Rightarrow>
                       (case draw_nodes cols 0 ns of
                          (evs, False) \<Rightarrow> (False, evs)
                        | (evs, True) \<Rightarrow>
                            if save_ok E then (True, evs @ [Write_file output_path])
                            else (False, evs)))))"

text \<open>
  What \<^verbatim>\<open>file_path\<close> names: nothing, something that cannot be opened as a file, a file
  that is not JSON, or a file holding a document.
\<close>

datatype file_entry = Absent | Not_a_file | Not_json | Document json

definition visualize_file ::
    "env \<Rightarrow> (string \<Rightarrow> string \<Rightarrow> string option) \<Rightarrow> file_entry \<Rightarrow> string \<Rightarrow> string option \<Rightarrow> bool
       \<Rightarrow> string option \<times> event list" where
  "visualize_file E with_suffix entry file_path output_path show =
     (case entry of
        Absent \<Rightarrow> (None, [])
      | Not_a_file \<Rightarrow> (None, [])
      | Not_json \<Rightarrow> (None, [])
      | Document workflow_data \<Rightarrow>
          (case (case output_path of
                   None \<Rightarrow> with_suffix file_path ''.png''
                 | Some p \<Rightarrow> Some p) of
             None \<Rightarrow> (None, [])
           | Some out \<Rightarrow>
               (case visualize_workflow_matplotlib E workflow_data (Some out) show of
                  (None, evs) \<Rightarrow>
                    (case create_simple_diagram E workflow_data out 800 600 of
                       (True, evs') \<Rightarrow> (Some out, evs @ evs')
                     | (False, evs') \<Rightarrow> (None, evs @ evs'))
                | (Some r, evs) \<Rightarrow> (Some r, evs))))"

section \<open>The command line\<close>

record args =
  arg_input :: string
  arg_output :: "string option"
  arg_no_show :: bool
  arg_width :: int
  arg_height :: int
  arg_format :: string

text \<open>
  \<^verbatim>\<open>main\<close> answers with the exit status. An empty \<^verbatim>\<open>--output\<close> counts as not given; an
  exception of \<^verbatim>\<open>with_suffix\<close> is not caught here and ends the process with status 1.
\<close>

definition main ::
    "env \<Rightarrow> (string \<Rightarrow> string \<Rightarrow> string option) \<Rightarrow> file_entry \<Rightarrow> args \<Rightarrow> int \<times> event list" where
  "main E with_suffix entry a =
     (if entry = Absent then (1, [])
      else if entry = Not_a_file then (1, [])
      else
        (case (case arg_output a of
                 Some p \<Rightarrow>
                   if p \<noteq> [] then Some p else with_suffix (arg_input a) (''.'' @ arg_format a)
               | None \<Rightarrow> with_suffix (arg_input a) (''.'' @ arg_format a)) of
           None \<Rightarrow> (1, [])
         | Some output_path \<Rightarrow>
             (case visualize_file E with_suffix entry (arg_input a) (Some output_path) (\<not> arg_no_show a) of
                (Some result, evs) \<Rightarrow> (0, evs)
              | (None, evs) \<Rightarrow> (1, evs))))"

section \<open>Notions used to state the properties\<close>

text \<open>
  The pairs (source, connection) that reach the innermost loop body of
  \<^verbatim>\<open>create_workflow_graph\<close>, in the order the loops visit them: the connection
  descriptors of the document.
\<close>

definition list_descriptors :: "string \<Rightarrow> json \<Rightarrow> (string \<times> json) list" where
  "list_descriptors s l = (case l of JList cs \<Rightarrow> map (Pair s) cs | _ \<Rightarrow> [])"

definition output_descriptors :: "string \<Rightarrow> string \<times> json \<Rightarrow> (string \<times> json) list" where
  "output_descriptors s out =
     (case snd out of JList ls \<Rightarrow> concat (map (list_descriptors s) ls) | _ \<Rightarrow> [])"

fun descriptors :: "(string \<times> json) list \<Rightarrow> (string \<times> json) list" where
  "descriptors [] = []"
| "descriptors ((s, outs) # rest) =
     (case outs of JObj os \<Rightarrow> concat (map (output_descriptors s) os) | _ \<Rightarrow> [])
       @ descriptors rest"

text \<open>
  The edge a descriptor asks for, when it is a dict whose \<^verbatim>\<open>node\<close> entry counts as true
  and is hashable.
\<close>

definition descriptor_edge :: "string \<times> json \<Rightarrow> (key \<times> key) option" where
  "descriptor_edge sc =
     (case snd sc of
        JObj kvs \<Rightarrow>
          (let t = dict_get kvs ''node'' JNull in
           if truthy t then map_option (Pair (KStr (fst sc))) (hash_key t) else None)
      | _ \<Rightarrow> None)"

text \<open>The loops over the connections, as one pass over the descriptors.\<close>

abbreviation walk :: "digraph \<Rightarrow> (string \<times> json) list \<Rightarrow> digraph" where
  "walk G ds \<equiv> foldl (\<lambda>H sc. connection_step H (fst sc) (snd sc)) G ds"

text \<open>What \<^verbatim>\<open>add_node\<close> does to the node dict, and the identifiers it accepts.\<close>

definition upsert :: "key \<Rightarrow> attrs \<Rightarrow> (key \<times> attrs) list \<Rightarrow> (key \<times> attrs) list" where
  "upsert k a ps = (if map_of ps k = None then ps @ [(k, a)] else set_attrs k a ps)"

definition real_key :: "json \<Rightarrow> bool" where
  "real_key i = (case hash_key i of None \<Rightarrow> False | Some k \<Rightarrow> k \<noteq> KNone)"

text \<open>
  The classification as the specification words it: an ordered list of rules, each a
  set of keywords and a category, and the first rule with a keyword in the lower-cased
  tag decides; no rule gives the default category.
\<close>

datatype category = Trigger | Condition | Function_node | Action | Default

definition classifier_rules :: "(string list \<times> category) list" where
  "classifier_rules =
     [([''trigger''], Trigger),
      ([''if'', ''switch''], Condition),
      ([''function'', ''code''], Function_node),
      ([''http'', ''webhook'', ''email'', ''slack'', ''telegram''], Action)]"

definition classify :: "string \<Rightarrow> category" where
  "classify tag =
     (case find (\<lambda>rule. list_ex (\<lambda>w. contains w (lower tag)) (fst rule)) classifier_rules of
        None \<Rightarrow> Default
      | Some rule \<Rightarrow> snd rule)"

fun category_name :: "category \<Rightarrow> string" where
  "category_name Trigger = ''trigger''"
| "category_name Condition = ''condition''"
| "category_name Function_node = ''function''"
| "category_name Action = ''action''"
| "category_name Default = ''default''"

section \<open>The connection walk\<close>

lemma and_then_Inr: "and_then m f = Inr y \<longleftrightarrow> (\<exists>x. m = Inr x \<and> f x = Inr y)"
  by (cases m) (simp_all add: and_then_def)

lemma and_then_Inl: "and_then m f = Inl e \<longleftrightarrow> (m = Inl e \<or> (\<exists>x. m = Inr x \<and> f x = Inl e))"
  by (cases m) (simp_all add: and_then_def)

lemma add_edge_node [simp]: "g_node (add_edge G u v) = g_node G"
  by (simp add: add_edge_def)

lemma add_edge_set [simp]: "set (g_edge (add_edge G u v)) = insert (u, v) (set (g_edge G))"
  by (auto simp: add_edge_def)

lemma add_edge_distinct: "distinct (g_edge G) \<Longrightarrow> distinct (g_edge (add_edge G u v))"
  by (simp add: add_edge_def)

lemma connection_step_edge:
  "connection_step G s c =
     (case descriptor_edge (s, c) of
        None \<Rightarrow> G
      | Some e \<Rightarrow>
          if map_of (g_node G) (fst e) \<noteq> None \<and> map_of (g_node G) (snd e) \<noteq> None
          then add_edge G (fst e) (snd e) else G)"
  by (cases c) (auto simp: connection_step_def descriptor_edge_def has_node_def Let_def
      split: option.splits)

lemma connection_step_node [simp]: "g_node (connection_step G s c) = g_node G"
  by (simp add: connection_step_edge split: option.splits)

lemma foldl_invariant:
  "(\<And>H x. P H \<Longrightarrow> P (f H x)) \<Longrightarrow> P G \<Longrightarrow> P (foldl f G xs)"
  by (induction xs arbitrary: G) simp_all

lemma foldl_concat_map:
  "foldl f G (concat (map g xs)) = foldl (\<lambda>H x. foldl f H (g x)) G xs"
  by (induction xs arbitrary: G) simp_all

lemma connection_list_step_walk:
  "connection_list_step G s l = walk G (list_descriptors s l)"
  by (cases l) (simp_all add: connection_list_step_def list_descriptors_def foldl_map)

lemma connection_list_step_walk_fun:
  "(\<lambda>H. connection_list_step H s) = (\<lambda>H l. walk H (list_descriptors s l))"
  by (intro ext) (rule connection_list_step_walk)

lemma output_step_walk: "output_step G s out = walk G (output_descriptors s out)"
  by (cases "snd out")
    (simp_all add: output_step_def output_descriptors_def foldl_concat_map
      connection_list_step_walk_fun)

lemma output_step_walk_fun:
  "(\<lambda>H. output_step H s) = (\<lambda>H out. walk H (output_descriptors s out))"
  by (intro ext) (rule output_step_walk)

lemma add_edges_walk: "add_edges G cs = Inr G' \<Longrightarrow> G' = walk G (descriptors cs)"
proof (induction cs arbitrary: G)
  case Nil
  then show ?case by simp
next
  case (Cons p cs)
  obtain s outs where p: "p = (s, outs)" by (cases p)
  from Cons.prems p obtain os where os: "outs = JObj os"
    and rest: "add_edges (foldl (\<lambda>H out. output_step H s out) G os) cs = Inr G'"
    by (cases outs) (simp_all add: and_then_def)
  have "foldl (\<lambda>H out. output_step H s out) G os = walk G (concat (map (output_descriptors s) os))"
    by (simp add: foldl_concat_map output_step_walk_fun)
  with Cons.IH [OF rest] show ?case by (simp add: p os)
qed

lemma walk_node [simp]: "g_node (walk G ds) = g_node G"
  by (induction ds arbitrary: G) simp_all

lemma walk_edges:
  "set (g_edge (walk G ds)) =
     set (g_edge G) \<union>
     {e. Some e \<in> descriptor_edge ` set ds \<and> map_of (g_node G) (fst e) \<noteq> None
          \<and> map_of (g_node G) (snd e) \<noteq> None}"
proof (induction ds arbitrary: G)
  case Nil
  then show ?case by simp
next
  case (Cons d ds)
  show ?case
    by (cases "descriptor_edge d")
      (auto simp: Cons.IH connection_step_edge [of _ "fst d" "snd d"])
qed

lemma walk_distinct: "distinct (g_edge G) \<Longrightarrow> distinct (g_edge (walk G ds))"
  by (rule foldl_invariant [where P = "\<lambda>H. distinct (g_edge H)"])
    (simp_all add: connection_step_edge add_edge_distinct split: option.splits)

lemma distinct_count_list_1: "distinct xs \<Longrightarrow> x \<in> set xs \<Longrightarrow> count_list xs x = 1"
  by (induction xs) (auto simp: count_list_0_iff)

section \<open>The node loop\<close>

lemma map_of_set_attrs:
  "map_of ps k \<noteq> None \<Longrightarrow> map_of (set_attrs k a ps) = (map_of ps)(k \<mapsto> a)"
  by (induction ps) (auto simp: fun_eq_iff)

lemma map_of_upsert: "map_of (upsert k a ps) = (map_of ps)(k \<mapsto> a)"
  by (auto simp: upsert_def map_of_set_attrs fun_eq_iff map_add_def split: option.splits)

lemma set_attrs_nonempty: "ps \<noteq> [] \<Longrightarrow> set_attrs k a ps \<noteq> []"
  by (cases ps) simp_all

lemma upsert_nonempty: "upsert k a ps \<noteq> []"
  by (cases ps) (simp_all add: upsert_def)

lemma add_node_Inr:
  "add_node G n a = Inr G' \<longleftrightarrow>
     (\<exists>k. hash_key n = Some k \<and> (k = KNone \<longrightarrow> map_of (g_node G) KNone \<noteq> None)
        \<and> G' = G\<lparr>g_node := upsert k a (g_node G)\<rparr>)"
  by (cases "hash_key n") (auto simp: add_node_def upsert_def)

lemma node_step_Inr:
  "node_step G node = Inr G' \<longleftrightarrow>
     (\<exists>i a k. node_args node = Inr (i, a) \<and> hash_key i = Some k
        \<and> (k = KNone \<longrightarrow> map_of (g_node G) KNone \<noteq> None)
        \<and> G' = G\<lparr>g_node := upsert k a (g_node G)\<rparr>)"
  by (auto simp: node_step_def and_then_Inr add_node_Inr)

lemma add_nodes_append:
  "add_nodes G (xs @ ys) = and_then (add_nodes G xs) (\<lambda>H. add_nodes H ys)"
  by (induction xs arbitrary: G) (simp_all add: and_then_def split: sum.splits)

lemma add_nodes_edge: "add_nodes G ns = Inr G' \<Longrightarrow> g_edge G' = g_edge G"
  by (induction ns arbitrary: G) (auto simp: and_then_Inr node_step_Inr)

lemma add_nodes_nonempty: "add_nodes G ns = Inr G' \<Longrightarrow> ns \<noteq> [] \<Longrightarrow> g_node G' \<noteq> []"
proof (induction ns arbitrary: G)
  case Nil
  then show ?case by simp
next
  case (Cons d ns)
  from Cons.prems obtain H where H: "node_step G d = Inr H" and r: "add_nodes H ns = Inr G'"
    by (auto simp: and_then_Inr)
  from H have "g_node H \<noteq> []" by (auto simp: node_step_Inr upsert_nonempty)
  with r Cons.IH show ?case by (cases ns) auto
qed

lemma add_nodes_ok_iff:
  "map_of (g_node G) KNone = None \<Longrightarrow>
   (\<exists>G'. add_nodes G ns = Inr G') \<longleftrightarrow>
   (\<forall>d\<in>set ns. \<exists>i a. node_args d = Inr (i, a) \<and> real_key i)"
proof (induction ns arbitrary: G)
  case Nil
  then show ?case by simp
next
  case (Cons d ns)
  show ?case
  proof (cases "\<exists>i a. node_args d = Inr (i, a) \<and> real_key i")
    case True
    then obtain i a k where d: "node_args d = Inr (i, a)" and k: "hash_key i = Some k" "k \<noteq> KNone"
      by (auto simp: real_key_def split: option.splits)
    let ?H = "G\<lparr>g_node := upsert k a (g_node G)\<rparr>"
    have step: "node_step G d = Inr ?H" using d k by (simp add: node_step_Inr)
    have "map_of (g_node ?H) KNone = None" using Cons.prems k by (simp add: map_of_upsert)
    from Cons.IH [OF this] True step show ?thesis by (simp add: and_then_def)
  next
    case False
    then have "\<And>H. node_step G d \<noteq> Inr H" using Cons.prems
      by (auto simp: node_step_Inr real_key_def)
    with False show ?thesis by (auto simp: and_then_Inr)
  qed
qed

lemma add_nodes_last:
  assumes "add_nodes G (pre @ d # post) = Inr G'"
    and "node_args d = Inr (i, a)" and "hash_key i = Some k"
    and "\<forall>d'\<in>set post. \<forall>i' a'. node_args d' = Inr (i', a') \<longrightarrow> hash_key i' \<noteq> Some k"
  shows "map_of (g_node G') k = Some a"
proof -
  from assms(1) obtain G1 G2 where "add_nodes G pre = Inr G1"
    and s: "node_step G1 d = Inr G2" and p: "add_nodes G2 post = Inr G'"
    by (auto simp: add_nodes_append and_then_Inr)
  from s assms(2,3) have m: "map_of (g_node G2) k = Some a"
    by (auto simp: node_step_Inr map_of_upsert)
  from p assms(4) m show ?thesis
  proof (induction post arbitrary: G2)
    case Nil
    then show ?case by simp
  next
    case (Cons e post)
    from Cons.prems(1) obtain H where H: "node_step G2 e = Inr H" and r: "add_nodes H post = Inr G'"
      by (auto simp: and_then_Inr)
    from H Cons.prems(2,3) have "map_of (g_node H) k = Some a"
      by (auto simp: node_step_Inr map_of_upsert)
    with Cons.IH [OF r] Cons.prems(2) show ?case by simp
  qed
qed

lemma add_nodes_keys:
  "add_nodes G ns = Inr G' \<Longrightarrow> map_of (g_node G') k \<noteq> None \<Longrightarrow>
   map_of (g_node G) k \<noteq> None \<or>
   (\<exists>d\<in>set ns. \<exists>i a. node_args d = Inr (i, a) \<and> hash_key i = Some k)"
proof (induction ns arbitrary: G)
  case Nil
  then show ?case by simp
next
  case (Cons d ns)
  from Cons.prems(1) obtain H where H: "node_step G d = Inr H" and r: "add_nodes H ns = Inr G'"
    by (auto simp: and_then_Inr)
  from Cons.IH [OF r Cons.prems(2)] H show ?case
    by (auto simp: node_step_Inr map_of_upsert split: if_splits)
qed

lemma node_args_dict: "node_args node = Inr ia \<Longrightarrow> \<exists>kvs. node = JObj kvs"
  by (cases node) (simp_all add: node_args_def and_then_def)

lemma node_args_id: "node_args (JObj kvs) = Inr (i, a) \<Longrightarrow> i = dict_get kvs ''id'' JNull"
  by (auto simp: node_args_def and_then_Inr)

lemma div_100_Inr: "div_100 v x = Inr q \<Longrightarrow> q = x / 100"
  by (simp add: div_100_def split: if_splits)

lemma node_args_pos:
  "node_args (JObj kvs) = Inr (i, a) \<Longrightarrow>
   dict_get kvs ''position'' (JList [JInt 0, JInt 0]) = JList (p0 # p1 # rest) \<Longrightarrow>
   \<exists>x y. to_num p0 = Inr x \<and> to_num p1 = Inr y \<and> pos a = (x / 100, - y / 100)"
  by (auto simp: node_args_def and_then_Inr dest!: div_100_Inr)

lemma color_unknown: "get_node_color (JStr ''unknown'') = Inr ''#95a5a6''"
  by code_simp


section \<open>Graphs that were built\<close>

lemma create_workflow_graph_Inr:
  "create_workflow_graph workflow_data = Inr G \<longleftrightarrow>
     (\<exists>doc ns cs G1. workflow_data = JObj doc
        \<and> py_iter (dict_get doc ''nodes'' (JList [])) = Inr ns
        \<and> add_nodes DiGraph ns = Inr G1
        \<and> py_items (dict_get doc ''connections'' (JObj [])) = Inr cs
        \<and> add_edges G1 cs = Inr G)"
  by (cases workflow_data) (auto simp: create_workflow_graph_def and_then_Inr)

lemma built_graph:
  assumes "create_workflow_graph workflow_data = Inr G"
  obtains doc ns cs G1 where "workflow_data = JObj doc"
    and "py_iter (dict_get doc ''nodes'' (JList [])) = Inr ns"
    and "add_nodes DiGraph ns = Inr G1"
    and "py_items (dict_get doc ''connections'' (JObj [])) = Inr cs"
    and "G = walk G1 (descriptors cs)"
    and "g_node G = g_node G1" and "g_edge G1 = []"
proof -
  from assms obtain doc ns cs G1 where a: "workflow_data = JObj doc"
    "py_iter (dict_get doc ''nodes'' (JList [])) = Inr ns"
    "add_nodes DiGraph ns = Inr G1"
    "py_items (dict_get doc ''connections'' (JObj [])) = Inr cs"
    "add_edges G1 cs = Inr G"
    by (auto simp: create_workflow_graph_Inr)
  from a(5) have w: "G = walk G1 (descriptors cs)" by (rule add_edges_walk)
  from a(3) have "g_edge G1 = []" by (simp add: add_nodes_edge DiGraph_def)
  with a w show thesis by (intro that) simp_all
qed

lemma built_edges:
  assumes "create_workflow_graph workflow_data = Inr G"
  shows "distinct (g_edge G)"
    and "e \<in> set (g_edge G) \<Longrightarrow>
           fst e \<in> fst ` set (g_node G) \<and> snd e \<in> fst ` set (g_node G)"
proof -
  from assms obtain cs G1 where w: "G = walk G1 (descriptors cs)" and e: "g_edge G1 = []"
    by (rule built_graph)
  show "distinct (g_edge G)" unfolding w by (rule walk_distinct) (simp add: e)
  show "fst e \<in> fst ` set (g_node G) \<and> snd e \<in> fst ` set (g_node G)"
    if "e \<in> set (g_edge G)"
    using that unfolding w by (simp add: walk_edges e map_of_eq_None_iff)
qed

section \<open>Edges and their endpoints\<close>

text \<open>
  Claim C1. In every graph that \<^verbatim>\<open>create_workflow_graph\<close> builds, both endpoints of every
  stored edge are nodes of the graph, so no edge dangles; and the loop body leaves the
  graph as it is, raising nothing, for a connection descriptor whose source or whose
  target is not a node of the graph.
\<close>

theorem no_dangling_edge:
  assumes "create_workflow_graph workflow_data = Inr G"
  shows "(\<forall>e\<in>set (g_edge G). fst e \<in> fst ` set (g_node G) \<and> snd e \<in> fst ` set (g_node G))
       \<and> (\<forall>H s kvs. \<not> (has_node H (JStr s) \<and> has_node H (dict_get kvs ''node'' JNull))
             \<longrightarrow> connection_step H s (JObj kvs) = H)"
proof
  show "\<forall>e\<in>set (g_edge G). fst e \<in> fst ` set (g_node G) \<and> snd e \<in> fst ` set (g_node G)"
    using built_edges(2) [OF assms] by blast
  show "\<forall>H s kvs. \<not> (has_node H (JStr s) \<and> has_node H (dict_get kvs ''node'' JNull))
          \<longrightarrow> connection_step H s (JObj kvs) = H"
    by (auto simp: connection_step_def Let_def)
qed

text \<open>
  Two nodes \<open>a\<close> and \<open>b\<close>, a connection from \<open>a\<close> to \<open>b\<close> and one from \<open>a\<close> to a node \<open>c\<close>
  that does not exist: the second is dropped.
\<close>

theorem no_dangling_edge_witness:
  "create_workflow_graph
     (JObj [(''nodes'', JList [JObj [(''id'', JStr ''a'')], JObj [(''id'', JStr ''b'')]]),
        (''connections'', JObj [(''a'', JObj [(''main'', JList [JList
          [JObj [(''node'', JStr ''b'')], JObj [(''node'', JStr ''c'')]]])])])])
   = Inr \<lparr>g_node =
        [(KStr ''a'', \<lparr>label = JStr ''Unnamed'', ntype = JStr ''unknown'', pos = (0, 0),
             color = ''#95a5a6''\<rparr>),
         (KStr ''b'', \<lparr>label = JStr ''Unnamed'', ntype = JStr ''unknown'', pos = (0, 0),
             color = ''#95a5a6''\<rparr>)],
        g_edge = [(KStr ''a'', KStr ''b'')]\<rparr>
   \<and> \<not> (has_node DiGraph (JStr ''a'')
          \<and> has_node DiGraph (dict_get [(''node'', JStr ''c'')] ''node'' JNull))
   \<and> connection_step DiGraph ''a'' (JObj [(''node'', JStr ''c'')]) = DiGraph"
proof -
  have h: "create_workflow_graph
     (JObj [(''nodes'', JList [JObj [(''id'', JStr ''a'')], JObj [(''id'', JStr ''b'')]]),
        (''connections'', JObj [(''a'', JObj [(''main'', JList [JList
          [JObj [(''node'', JStr ''b'')], JObj [(''node'', JStr ''c'')]]])])])])
   = Inr \<lparr>g_node =
        [(KStr ''a'', \<lparr>label = JStr ''Unnamed'', ntype = JStr ''unknown'', pos = (0, 0),
             color = ''#95a5a6''\<rparr>),
         (KStr ''b'', \<lparr>label = JStr ''Unnamed'', ntype = JStr ''unknown'', pos = (0, 0),
             color = ''#95a5a6''\<rparr>)],
        g_edge = [(KStr ''a'', KStr ''b'')]\<rparr>"
    by code_simp
  have n: "\<not> (has_node DiGraph (JStr ''a'')
          \<and> has_node DiGraph (dict_get [(''node'', JStr ''c'')] ''node'' JNull))"
    by code_simp
  from no_dangling_edge [OF h] n h show ?thesis by blast
qed


lemma descriptor_edge_target:
  "descriptor_edge sc = Some (u, v) \<Longrightarrow> v \<noteq> KStr [] \<and> v \<noteq> KNone \<and> v \<noteq> KNum 0"
proof (cases "snd sc")
  case (JObj kvs)
  assume a: "descriptor_edge sc = Some (u, v)"
  show ?thesis
  proof (cases "dict_get kvs ''node'' JNull")
    case JNull
    with a JObj show ?thesis by (simp add: descriptor_edge_def)
  qed (use a JObj in \<open>auto simp: descriptor_edge_def split: if_splits\<close>)
qed (simp_all add: descriptor_edge_def)

lemma built_edge_descriptor:
  assumes "create_workflow_graph (JObj doc) = Inr G"
    and "py_items (dict_get doc ''connections'' (JObj [])) = Inr cs"
  shows "set (g_edge G) =
     {e. Some e \<in> descriptor_edge ` set (descriptors cs)
          \<and> fst e \<in> fst ` set (g_node G) \<and> snd e \<in> fst ` set (g_node G)}"
proof -
  from assms(1) obtain doc' cs' G1 where d: "JObj doc = JObj doc'"
    and c: "py_items (dict_get doc' ''connections'' (JObj [])) = Inr cs'"
    and w: "G = walk G1 (descriptors cs')" and e: "g_edge G1 = []"
    by (rule built_graph)
  from d c assms(2) have "cs' = cs" by simp
  with w e show ?thesis by (simp add: walk_edges map_of_eq_None_iff)
qed

lemma built_edge_some_descriptor:
  assumes "create_workflow_graph workflow_data = Inr G" and "e \<in> set (g_edge G)"
  shows "\<exists>sc. descriptor_edge sc = Some e"
proof -
  from assms(1) obtain cs G1 where w: "G = walk G1 (descriptors cs)" and e: "g_edge G1 = []"
    by (rule built_graph)
  from assms(2) have "Some e \<in> descriptor_edge ` set (descriptors cs)"
    unfolding w by (simp add: walk_edges e)
  then show ?thesis by (metis imageE)
qed

section \<open>Targets that count as false\<close>

text \<open>
  Claim C10. No graph that \<^verbatim>\<open>create_workflow_graph\<close> builds has an edge whose target is
  the empty string, and the loop body leaves any graph as it is for a connection
  descriptor whose \<^verbatim>\<open>node\<close> entry is the empty string, whether or not the graph has a
  node with the empty string as identifier: the target is tested for its truth value
  before it is looked up.
\<close>

theorem empty_target_dropped:
  "(create_workflow_graph workflow_data = Inr G \<longrightarrow> (u, KStr []) \<notin> set (g_edge G))
   \<and> (dict_get kvs ''node'' JNull = JStr [] \<longrightarrow> connection_step H s (JObj kvs) = H)"
proof (intro conjI impI notI)
  assume "create_workflow_graph workflow_data = Inr G" and "(u, KStr []) \<in> set (g_edge G)"
  then obtain sc where "descriptor_edge sc = Some (u, KStr [])"
    using built_edge_some_descriptor by blast
  then show False by (auto dest: descriptor_edge_target)
next
  assume "dict_get kvs ''node'' JNull = JStr []"
  then show "connection_step H s (JObj kvs) = H" by (simp add: connection_step_def)
qed

text \<open>
  A document with a node whose identifier is the empty string and a connection from
  \<open>a\<close> to it: both nodes are built and no edge is stored.
\<close>

theorem empty_target_dropped_witness:
  "create_workflow_graph
     (JObj [(''nodes'', JList [JObj [(''id'', JStr '''')], JObj [(''id'', JStr ''a'')]]),
        (''connections'', JObj [(''a'', JObj [(''main'', JList [JList
          [JObj [(''node'', JStr '''')]]])])])])
   = Inr \<lparr>g_node =
        [(KStr '''', \<lparr>label = JStr ''Unnamed'', ntype = JStr ''unknown'', pos = (0, 0),
             color = ''#95a5a6''\<rparr>),
         (KStr ''a'', \<lparr>label = JStr ''Unnamed'', ntype = JStr ''unknown'', pos = (0, 0),
             color = ''#95a5a6''\<rparr>)],
        g_edge = []\<rparr>
   \<and> (KStr ''a'', KStr '''') \<notin> set (g_edge \<lparr>g_node =
        [(KStr '''', \<lparr>label = JStr ''Unnamed'', ntype = JStr ''unknown'', pos = (0, 0),
             color = ''#95a5a6''\<rparr>),
         (KStr ''a'', \<lparr>label = JStr ''Unnamed'', ntype = JStr ''unknown'', pos = (0, 0),
             color = ''#95a5a6''\<rparr>)],
        g_edge = []\<rparr>)
   \<and> dict_get [(''node'', JStr '''')] ''node'' JNull = JStr ''''"
proof -
  have h: "create_workflow_graph
     (JObj [(''nodes'', JList [JObj [(''id'', JStr '''')], JObj [(''id'', JStr ''a'')]]),
        (''connections'', JObj [(''a'', JObj [(''main'', JList [JList
          [JObj [(''node'', JStr '''')]]])])])])
   = Inr \<lparr>g_node =
        [(KStr '''', \<lparr>label = JStr ''Unnamed'', ntype = JStr ''unknown'', pos = (0, 0),
             color = ''#95a5a6''\<rparr>),
         (KStr ''a'', \<lparr>label = JStr ''Unnamed'', ntype = JStr ''unknown'', pos = (0, 0),
             color = ''#95a5a6''\<rparr>)],
        g_edge = []\<rparr>"
    by code_simp
  have d: "dict_get [(''node'', JStr '''')] ''node'' JNull = JStr ''''"
    by code_simp
  from empty_target_dropped [of _ _ "KStr ''a''" "[(''node'', JStr '''')]"] h d
  show ?thesis by blast
qed

section \<open>Several connections between one pair of nodes\<close>

text \<open>
  Claim C4, as amended. When the connection map yields one or more descriptors asking
  for the edge from \<open>u\<close> to \<open>v\<close>, both nodes of the built graph, the graph stores exactly
  one edge from \<open>u\<close> to \<open>v\<close>, however many descriptors there are: \<^verbatim>\<open>nx.DiGraph\<close> keeps
  one edge per ordered pair.
\<close>

theorem parallel_edges_collapse:
  assumes "create_workflow_graph (JObj doc) = Inr G"
    and "py_items (dict_get doc ''connections'' (JObj [])) = Inr cs"
    and "1 \<le> count_list (map descriptor_edge (descriptors cs)) (Some (u, v))"
    and "u \<in> fst ` set (g_node G)" and "v \<in> fst ` set (g_node G)"
  shows "count_list (g_edge G) (u, v) = 1"
proof -
  from assms(3) have "Some (u, v) \<in> set (map descriptor_edge (descriptors cs))"
    by (metis count_list_0_iff not_one_le_zero)
  then have "(u, v) \<in> set (g_edge G)"
    using assms(4,5) by (simp add: built_edge_descriptor [OF assms(1,2)])
  with built_edges(1) [OF assms(1)] show ?thesis by (rule distinct_count_list_1)
qed

text \<open>Two descriptors from \<open>a\<close> to \<open>b\<close>, one edge.\<close>

theorem parallel_edges_collapse_witness:
  "count_list (g_edge \<lparr>g_node =
        [(KStr ''a'', \<lparr>label = JStr ''Unnamed'', ntype = JStr ''unknown'', pos = (0, 0),
             color = ''#95a5a6''\<rparr>),
         (KStr ''b'', \<lparr>label = JStr ''Unnamed'', ntype = JStr ''unknown'', pos = (0, 0),
             color = ''#95a5a6''\<rparr>),
         (KStr ''c'', \<lparr>label = JStr ''Unnamed'', ntype = JStr ''unknown'', pos = (0, 0),
             color = ''#95a5a6''\<rparr>)],
        g_edge = [(KStr ''a'', KStr ''b''), (KStr ''a'', KStr ''c'')]\<rparr>)
     (KStr ''a'', KStr ''b'') = 1"
proof -
  let ?cs = "[(''a'', JObj [(''main'', JList [JList
          [JObj [(''node'', JStr ''b'')], JObj [(''node'', JStr ''c'')],
           JObj [(''node'', JStr ''b'')], JObj [(''node'', JStr ''b'')]]])])]"
  let ?doc = "[(''nodes'', JList [JObj [(''id'', JStr ''a'')], JObj [(''id'', JStr ''b'')],
                  JObj [(''id'', JStr ''c'')]]),
               (''connections'', JObj ?cs)]"
  let ?G = "\<lparr>g_node =
        [(KStr ''a'', \<lparr>label = JStr ''Unnamed'', ntype = JStr ''unknown'', pos = (0, 0),
             color = ''#95a5a6''\<rparr>),
         (KStr ''b'', \<lparr>label = JStr ''Unnamed'', ntype = JStr ''unknown'', pos = (0, 0),
             color = ''#95a5a6''\<rparr>),
         (KStr ''c'', \<lparr>label = JStr ''Unnamed'', ntype = JStr ''unknown'', pos = (0, 0),
             color = ''#95a5a6''\<rparr>)],
        g_edge = [(KStr ''a'', KStr ''b''), (KStr ''a'', KStr ''c'')]\<rparr>"
  have h1: "create_workflow_graph (JObj ?doc) = Inr ?G" by code_simp
  have h2: "py_items (dict_get ?doc ''connections'' (JObj [])) = Inr ?cs" by code_simp
  have h3: "1 \<le> count_list (map descriptor_edge (descriptors ?cs))
                   (Some (KStr ''a'', KStr ''b''))" by code_simp
  have h4: "KStr ''a'' \<in> fst ` set (g_node ?G)" by simp
  have h5: "KStr ''b'' \<in> fst ` set (g_node ?G)" by simp
  show ?thesis by (rule parallel_edges_collapse [OF h1 h2 h3 h4 h5])
qed

text \<open>
  The claim as stated fails: two descriptors from \<open>a\<close> to \<open>b\<close>, both nodes, and the
  graph has the edge once.
\<close>

theorem parallel_edges_counterexample:
  "count_list (map descriptor_edge (descriptors
       [(''a'', JObj [(''main'', JList [JList
          [JObj [(''node'', JStr ''b'')], JObj [(''node'', JStr ''b'')]]])])]))
     (Some (KStr ''a'', KStr ''b'')) = 2
   \<and> create_workflow_graph
     (JObj [(''nodes'', JList [JObj [(''id'', JStr ''a'')], JObj [(''id'', JStr ''b'')]]),
        (''connections'', JObj [(''a'', JObj [(''main'', JList [JList
          [JObj [(''node'', JStr ''b'')], JObj [(''node'', JStr ''b'')]]])])])])
   = Inr \<lparr>g_node =
        [(KStr ''a'', \<lparr>label = JStr ''Unnamed'', ntype = JStr ''unknown'', pos = (0, 0),
             color = ''#95a5a6''\<rparr>),
         (KStr ''b'', \<lparr>label = JStr ''Unnamed'', ntype = JStr ''unknown'', pos = (0, 0),
             color = ''#95a5a6''\<rparr>)],
        g_edge = [(KStr ''a'', KStr ''b'')]\<rparr>"
  by code_simp


section \<open>Descriptors without an identifier\<close>

lemma DiGraph_no_None: "map_of (g_node DiGraph) KNone = None"
  by (simp add: DiGraph_def)

lemma built_nodes_ok:
  assumes "create_workflow_graph (JObj doc) = Inr G"
    and "py_iter (dict_get doc ''nodes'' (JList [])) = Inr ns"
    and "d \<in> set ns"
  shows "\<exists>kvs i a. d = JObj kvs \<and> node_args d = Inr (i, a)
           \<and> i = dict_get kvs ''id'' JNull \<and> real_key i"
proof -
  from assms(1) obtain doc' ns' G1 where d: "JObj doc = JObj doc'"
    and n: "py_iter (dict_get doc' ''nodes'' (JList [])) = Inr ns'"
    and a: "add_nodes DiGraph ns' = Inr G1"
    by (rule built_graph)
  from d n assms(2) have "ns' = ns" by simp
  with a have "\<exists>G'. add_nodes DiGraph ns = Inr G'" by blast
  then have "\<forall>d\<in>set ns. \<exists>i a. node_args d = Inr (i, a) \<and> real_key i"
    by (simp add: add_nodes_ok_iff [OF DiGraph_no_None])
  with assms(3) obtain i a where ia: "node_args d = Inr (i, a)" "real_key i" by blast
  from ia(1) obtain kvs where k: "d = JObj kvs" by (auto dest: node_args_dict)
  with ia show ?thesis by (auto dest: node_args_id)
qed

lemma built_node_origin:
  assumes "create_workflow_graph (JObj doc) = Inr G"
    and "py_iter (dict_get doc ''nodes'' (JList [])) = Inr ns"
    and "k \<in> fst ` set (g_node G)"
  shows "\<exists>d\<in>set ns. \<exists>i a. node_args d = Inr (i, a) \<and> hash_key i = Some k"
proof -
  from assms(1) obtain doc' ns' G1 where d: "JObj doc = JObj doc'"
    and n: "py_iter (dict_get doc' ''nodes'' (JList [])) = Inr ns'"
    and a: "add_nodes DiGraph ns' = Inr G1" and g: "g_node G = g_node G1"
    by (rule built_graph)
  from d n assms(2) have e: "ns' = ns" by simp
  from assms(3) g have "map_of (g_node G1) k \<noteq> None" by (simp add: map_of_eq_None_iff)
  from add_nodes_keys [OF a this] e show ?thesis by (simp add: DiGraph_def)
qed

lemma missing_id_not_real:
  "map_of kvs ''id'' = None \<Longrightarrow> \<not> real_key (dict_get kvs ''id'' JNull)"
  by (simp add: dict_get_def real_key_def)

text \<open>
  Claim C2, as amended. A node descriptor without an \<^verbatim>\<open>id\<close> entry is not skipped: its
  identifier is \<^verbatim>\<open>None\<close>, which \<^verbatim>\<open>add_node\<close> rejects, so for a document whose node list
  holds such a descriptor \<^verbatim>\<open>create_workflow_graph\<close> raises and builds no graph. Hence
  every node of a graph that is built has the identifier that some descriptor of the
  list carries under \<^verbatim>\<open>id\<close>.
\<close>

theorem missing_id_not_skipped:
  assumes "map_of doc ''nodes'' = Some (JList ns)"
  shows "(\<forall>kvs. JObj kvs \<in> set ns \<and> map_of kvs ''id'' = None
            \<longrightarrow> (\<exists>e. create_workflow_graph (JObj doc) = Inl e))
       \<and> (\<forall>G k. create_workflow_graph (JObj doc) = Inr G \<and> k \<in> fst ` set (g_node G)
            \<longrightarrow> (\<exists>kvs v. JObj kvs \<in> set ns \<and> map_of kvs ''id'' = Some v
                    \<and> hash_key v = Some k))"
proof (intro conjI allI impI)
  from assms have it: "py_iter (dict_get doc ''nodes'' (JList [])) = Inr ns"
    by (simp add: dict_get_def)
  fix kvs
  assume a: "JObj kvs \<in> set ns \<and> map_of kvs ''id'' = None"
  show "\<exists>e. create_workflow_graph (JObj doc) = Inl e"
  proof (cases "create_workflow_graph (JObj doc)")
    case (Inl e)
    then show ?thesis by blast
  next
    case (Inr G)
    from built_nodes_ok [OF Inr it] a have "real_key (dict_get kvs ''id'' JNull)" by blast
    with a show ?thesis by (simp add: missing_id_not_real)
  qed
next
  from assms have it: "py_iter (dict_get doc ''nodes'' (JList [])) = Inr ns"
    by (simp add: dict_get_def)
  fix G k
  assume a: "create_workflow_graph (JObj doc) = Inr G \<and> k \<in> fst ` set (g_node G)"
  then obtain d i av where d: "d \<in> set ns" "node_args d = Inr (i, av)" "hash_key i = Some k"
    using built_node_origin [OF _ it] by blast
  from built_nodes_ok [OF _ it d(1)] a d(2) obtain kvs
    where k: "d = JObj kvs" "i = dict_get kvs ''id'' JNull" "real_key i" by auto
  have "map_of kvs ''id'' = Some i"
  proof (cases "map_of kvs ''id''")
    case None
    with k show ?thesis by (simp add: missing_id_not_real)
  next
    case (Some v)
    with k show ?thesis by (simp add: dict_get_def)
  qed
  with d k show "\<exists>kvs v. JObj kvs \<in> set ns \<and> map_of kvs ''id'' = Some v \<and> hash_key v = Some k"
    by blast
qed

text \<open>
  The claim as stated fails: the second descriptor has no identifier, and the call
  raises \<^verbatim>\<open>ValueError\<close> instead of skipping it and answering with the graph of the first.
\<close>

theorem missing_id_counterexample:
  "create_workflow_graph
     (JObj [(''nodes'', JList [JObj [(''id'', JStr ''a''), (''name'', JStr ''Start'')],
                               JObj [(''name'', JStr ''No id'')]])])
   = Inl ValueError"
  by code_simp

text \<open>
  One document with a descriptor that has no identifier, and one whose only descriptor
  has the identifier \<open>a\<close>.
\<close>

theorem missing_id_not_skipped_witness:
  "(\<exists>e. create_workflow_graph
     (JObj [(''nodes'', JList [JObj [(''id'', JStr ''a'')], JObj [(''name'', JStr ''x'')]])])
      = Inl e)
   \<and> (\<exists>kvs v. JObj kvs \<in> set [JObj [(''id'', JStr ''a'')]] \<and> map_of kvs ''id'' = Some v
         \<and> hash_key v = Some (KStr ''a''))"
proof -
  have h1: "map_of [(''nodes'', JList [JObj [(''id'', JStr ''a'')], JObj [(''name'', JStr ''x'')]])]
              ''nodes'' = Some (JList [JObj [(''id'', JStr ''a'')], JObj [(''name'', JStr ''x'')]])"
    by simp
  have m: "JObj [(''name'', JStr ''x'')] \<in> set [JObj [(''id'', JStr ''a'')], JObj [(''name'', JStr ''x'')]]
           \<and> map_of [(''name'', JStr ''x'')] ''id'' = None"
    by simp
  have h2: "map_of [(''nodes'', JList [JObj [(''id'', JStr ''a'')]])] ''nodes''
              = Some (JList [JObj [(''id'', JStr ''a'')]])"
    by simp
  have g: "create_workflow_graph (JObj [(''nodes'', JList [JObj [(''id'', JStr ''a'')]])])
      = Inr \<lparr>g_node = [(KStr ''a'', \<lparr>label = JStr ''Unnamed'', ntype = JStr ''unknown'',
                 pos = (0, 0), color = ''#95a5a6''\<rparr>)], g_edge = []\<rparr>"
    by code_simp
  have k: "KStr ''a'' \<in> fst ` set (g_node \<lparr>g_node = [(KStr ''a'', \<lparr>label = JStr ''Unnamed'',
             ntype = JStr ''unknown'', pos = (0, 0), color = ''#95a5a6''\<rparr>)], g_edge = []\<rparr>)"
    by simp
  from missing_id_not_skipped [OF h1] m missing_id_not_skipped [OF h2] g k
  show ?thesis by blast
qed


section \<open>When graph construction raises\<close>

lemma color_of_known:
  "color_of ''trigger'' = Inr ''#ff6b6b''"
  "color_of ''action'' = Inr ''#4ecdc4''"
  "color_of ''condition'' = Inr ''#ffe66d''"
  "color_of ''function'' = Inr ''#a8e6cf''"
  "color_of ''default'' = Inr ''#95a5a6''"
  by (simp_all add: color_of_def node_colors_def)

lemma get_node_color_total: "\<exists>c. get_node_color (JStr t) = Inr c"
  by (simp add: color_of_known)

lemma zero_not_too_large: "\<not> too_large (JInt 0)"
  by (simp add: float_limit_def)

lemma overflow_raised:
  "create_workflow_graph
     (JObj [(''nodes'', JList [JObj [(''id'', JStr ''a''),
                                     (''position'', JList [JInt (10 ^ 400), JInt 0])]])])
   = Inl OverflowError"
  by code_simp

lemma node_args_ok:
  assumes "map_of kvs ''type'' = None \<or> (\<exists>t. map_of kvs ''type'' = Some (JStr t))"
    and "map_of kvs ''position'' = None \<or>
         (\<exists>p0 p1 rest x y. map_of kvs ''position'' = Some (JList (p0 # p1 # rest))
            \<and> to_num p0 = Inr x \<and> to_num p1 = Inr y
            \<and> \<not> too_large p0 \<and> \<not> too_large p1)"
  shows "\<exists>a. node_args (JObj kvs) = Inr (dict_get kvs ''id'' JNull, a)"
proof -
  from assms(1) obtain t where t: "dict_get kvs ''type'' (JStr ''unknown'') = JStr t"
    by (auto simp: dict_get_def)
  obtain c where c: "get_node_color (JStr t) = Inr c"
    using get_node_color_total by blast
  from assms(2) obtain p0 p1 rest x y
    where p: "dict_get kvs ''position'' (JList [JInt 0, JInt 0]) = JList (p0 # p1 # rest)"
      "to_num p0 = Inr x" "to_num p1 = Inr y" "\<not> too_large p0" "\<not> too_large p1"
    using zero_not_too_large by (auto simp: dict_get_def)
  show ?thesis
    by (simp add: node_args_def and_then_def div_100_def t c p del: get_node_color.simps)
qed

lemma not_iterable_nodes:
  assumes "\<forall>xs. v \<noteq> JList xs" and "v \<noteq> JStr []" and "v \<noteq> JObj []"
  shows "and_then (py_iter v) (\<lambda>ns. and_then (add_nodes DiGraph ns) f) = Inl TypeError
       \<or> and_then (py_iter v) (\<lambda>ns. and_then (add_nodes DiGraph ns) f) = Inl AttributeError"
proof (cases v)
  case (JStr s)
  with assms(2) obtain c cs where "s = c # cs" by (cases s) auto
  with JStr show ?thesis by (simp add: and_then_def node_step_def node_args_def)
next
  case (JObj kvs)
  with assms(3) obtain kv rest where "kvs = kv # rest" by (cases kvs) auto
  with JObj show ?thesis by (simp add: and_then_def node_step_def node_args_def)
qed (use assms(1) in \<open>simp_all add: and_then_def\<close>)

text \<open>
  Claim C3, as amended. \<^verbatim>\<open>create_workflow_graph\<close> raises nothing when the top-level
  \<^verbatim>\<open>nodes\<close> and \<^verbatim>\<open>connections\<close> entries are absent: the answer is the empty graph. It
  raises \<^verbatim>\<open>TypeError\<close> or \<^verbatim>\<open>AttributeError\<close> when \<^verbatim>\<open>nodes\<close> is present and is neither a
  list nor the empty string nor the empty dict. And it raises nothing for a list of
  descriptors each of which is a dict with a hashable identifier other than \<^verbatim>\<open>None\<close>,
  whose \<^verbatim>\<open>type\<close> is absent or a string and whose \<^verbatim>\<open>position\<close> is absent or a list that
  starts with two numbers, neither of them an integer too large to be divided into a
  float, whether or not \<^verbatim>\<open>name\<close> is there.
\<close>

theorem errors_of_create_workflow_graph:
  "(map_of doc ''nodes'' = None \<and> map_of doc ''connections'' = None
      \<longrightarrow> create_workflow_graph (JObj doc) = Inr DiGraph)
   \<and> (map_of doc ''nodes'' = Some v \<and> (\<forall>xs. v \<noteq> JList xs) \<and> v \<noteq> JStr [] \<and> v \<noteq> JObj []
      \<longrightarrow> create_workflow_graph (JObj doc) = Inl TypeError
          \<or> create_workflow_graph (JObj doc) = Inl AttributeError)
   \<and> (map_of doc ''nodes'' = Some (JList ns) \<and> map_of doc ''connections'' = None
       \<and> (\<forall>d\<in>set ns. \<exists>kvs. d = JObj kvs \<and> real_key (dict_get kvs ''id'' JNull)
            \<and> (map_of kvs ''type'' = None \<or> (\<exists>t. map_of kvs ''type'' = Some (JStr t)))
            \<and> (map_of kvs ''position'' = None \<or>
                 (\<exists>p0 p1 rest x y. map_of kvs ''position'' = Some (JList (p0 # p1 # rest))
                    \<and> to_num p0 = Inr x \<and> to_num p1 = Inr y
                    \<and> \<not> too_large p0 \<and> \<not> too_large p1)))
      \<longrightarrow> (\<exists>G. create_workflow_graph (JObj doc) = Inr G))"
proof (intro conjI impI)
  assume "map_of doc ''nodes'' = None \<and> map_of doc ''connections'' = None"
  then show "create_workflow_graph (JObj doc) = Inr DiGraph"
    by (simp add: create_workflow_graph_def and_then_def dict_get_def)
next
  assume a: "map_of doc ''nodes'' = Some v \<and> (\<forall>xs. v \<noteq> JList xs) \<and> v \<noteq> JStr [] \<and> v \<noteq> JObj []"
  then have "dict_get doc ''nodes'' (JList []) = v" by (simp add: dict_get_def)
  with a not_iterable_nodes [of v]
  show "create_workflow_graph (JObj doc) = Inl TypeError
      \<or> create_workflow_graph (JObj doc) = Inl AttributeError"
    by (simp add: create_workflow_graph_def and_then_def)
next
  assume a: "map_of doc ''nodes'' = Some (JList ns) \<and> map_of doc ''connections'' = None
       \<and> (\<forall>d\<in>set ns. \<exists>kvs. d = JObj kvs \<and> real_key (dict_get kvs ''id'' JNull)
            \<and> (map_of kvs ''type'' = None \<or> (\<exists>t. map_of kvs ''type'' = Some (JStr t)))
            \<and> (map_of kvs ''position'' = None \<or>
                 (\<exists>p0 p1 rest x y. map_of kvs ''position'' = Some (JList (p0 # p1 # rest))
                    \<and> to_num p0 = Inr x \<and> to_num p1 = Inr y
                    \<and> \<not> too_large p0 \<and> \<not> too_large p1)))"
  have "\<forall>d\<in>set ns. \<exists>i a. node_args d = Inr (i, a) \<and> real_key i"
  proof
    fix d assume "d \<in> set ns"
    with a obtain kvs where k: "d = JObj kvs" "real_key (dict_get kvs ''id'' JNull)"
      "map_of kvs ''type'' = None \<or> (\<exists>t. map_of kvs ''type'' = Some (JStr t))"
       "map_of kvs ''position'' = None \<or>
                 (\<exists>p0 p1 rest x y. map_of kvs ''position'' = Some (JList (p0 # p1 # rest))
                    \<and> to_num p0 = Inr x \<and> to_num p1 = Inr y
                    \<and> \<not> too_large p0 \<and> \<not> too_large p1)"
      by blast
    from node_args_ok [OF k(3,4)] k(1,2)
    show "\<exists>i a. node_args d = Inr (i, a) \<and> real_key i" by blast
  qed
  then obtain G1 where "add_nodes DiGraph ns = Inr G1"
    using add_nodes_ok_iff [OF DiGraph_no_None] by blast
  with a show "\<exists>G. create_workflow_graph (JObj doc) = Inr G"
    by (simp add: create_workflow_graph_def and_then_def dict_get_def)
qed

text \<open>
  The three parts at a document without nodes, at one whose \<^verbatim>\<open>nodes\<close> entry is a
  string, and at one with two descriptors, the first with an identifier only and the
  second with a type and a position as well.
\<close>

theorem errors_of_create_workflow_graph_witness:
  "create_workflow_graph (JObj [(''name'', JStr ''x'')]) = Inr DiGraph
   \<and> (create_workflow_graph (JObj [(''nodes'', JStr ''ab'')]) = Inl TypeError
       \<or> create_workflow_graph (JObj [(''nodes'', JStr ''ab'')]) = Inl AttributeError)
   \<and> (\<exists>G. create_workflow_graph (JObj [(''nodes'', JList
     [JObj [(''id'', JStr ''a'')],
      JObj [(''id'', JStr ''b''), (''type'', JStr ''Slack''),
            (''position'', JList [JInt 100, JInt 200])]])])
          = Inr G)"
proof -
  let ?ns = "[JObj [(''id'', JStr ''a'')],
      JObj [(''id'', JStr ''b''), (''type'', JStr ''Slack''),
            (''position'', JList [JInt 100, JInt 200])]]"
  have h1: "map_of [(''name'', JStr ''x'')] ''nodes'' = None
            \<and> map_of [(''name'', JStr ''x'')] ''connections'' = None"
    by simp
  have h2: "map_of [(''nodes'', JStr ''ab'')] ''nodes'' = Some (JStr ''ab'')
            \<and> (\<forall>xs. JStr ''ab'' \<noteq> JList xs) \<and> JStr ''ab'' \<noteq> JStr [] \<and> JStr ''ab'' \<noteq> JObj []"
    by simp
  have n: "\<not> too_large (JInt 100)" "\<not> too_large (JInt 200)"
    by (simp_all add: float_limit_def)
  have p: "\<exists>p0 p1 rest x y.
             map_of [(''id'', JStr ''b''), (''type'', JStr ''Slack''),
                     (''position'', JList [JInt 100, JInt 200])] ''position''
               = Some (JList (p0 # p1 # rest))
             \<and> to_num p0 = Inr x \<and> to_num p1 = Inr y
             \<and> \<not> too_large p0 \<and> \<not> too_large p1"
    by (rule exI [of _ "JInt 100"], rule exI [of _ "JInt 200"], rule exI [of _ "[]"],
        rule exI [of _ 100], rule exI [of _ 200]) (use n in simp)
  have h3: "map_of [(''nodes'', JList ?ns)] ''nodes'' = Some (JList ?ns)
       \<and> map_of [(''nodes'', JList ?ns)] ''connections'' = None
       \<and> (\<forall>d\<in>set ?ns.
            \<exists>kvs. d = JObj kvs \<and> real_key (dict_get kvs ''id'' JNull)
            \<and> (map_of kvs ''type'' = None \<or> (\<exists>t. map_of kvs ''type'' = Some (JStr t)))
            \<and> (map_of kvs ''position'' = None \<or>
                 (\<exists>p0 p1 rest x y. map_of kvs ''position'' = Some (JList (p0 # p1 # rest))
                    \<and> to_num p0 = Inr x \<and> to_num p1 = Inr y
                    \<and> \<not> too_large p0 \<and> \<not> too_large p1)))"
    using p by (simp add: real_key_def dict_get_def del: too_large.simps)
  from errors_of_create_workflow_graph [of "[(''name'', JStr ''x'')]"] h1
  have c1: "create_workflow_graph (JObj [(''name'', JStr ''x'')]) = Inr DiGraph"
    by blast
  from errors_of_create_workflow_graph [of "[(''nodes'', JStr ''ab'')]" "JStr ''ab''"] h2
  have c2: "create_workflow_graph (JObj [(''nodes'', JStr ''ab'')]) = Inl TypeError
       \<or> create_workflow_graph (JObj [(''nodes'', JStr ''ab'')]) = Inl AttributeError"
    by blast
  from errors_of_create_workflow_graph [of "[(''nodes'', JList ?ns)]" _ ?ns] h3
  have c3: "\<exists>G. create_workflow_graph (JObj [(''nodes'', JList ?ns)]) = Inr G"
    by blast
  from c1 c2 c3 show ?thesis by blast
qed

text \<open>
  The claim as stated fails in both directions: a document without a \<^verbatim>\<open>nodes\<close> entry
  raises nothing and gives the empty graph, and a document whose \<^verbatim>\<open>nodes\<close> entry is a
  list raises when an element of the list is not a dict.
\<close>

theorem errors_counterexample:
  "create_workflow_graph (JObj [(''name'', JStr ''no nodes here'')])
     = Inr \<lparr>g_node = [], g_edge = []\<rparr>
   \<and> create_workflow_graph (JObj [(''nodes'', JList [JInt 5])]) = Inl AttributeError"
  by code_simp


section \<open>Classification of type tags\<close>

text \<open>The substring test is the usual one.\<close>

lemma starts_with_iff: "starts_with p s \<longleftrightarrow> (\<exists>ss. s = p @ ss)"
  by (induction p s rule: starts_with.induct) auto

lemma contains_iff: "contains sub s \<longleftrightarrow> (\<exists>ps ss. s = ps @ sub @ ss)"
proof (induction s)
  case Nil
  then show ?case by auto
next
  case (Cons c cs)
  show ?case
  proof
    assume "contains sub (c # cs)"
    then consider "starts_with sub (c # cs)" | "contains sub cs" by auto
    then show "\<exists>ps ss. c # cs = ps @ sub @ ss"
    proof cases
      case 1
      then obtain ss where "c # cs = sub @ ss" by (auto simp: starts_with_iff)
      then have "c # cs = [] @ sub @ ss" by simp
      then show ?thesis by blast
    next
      case 2
      with Cons.IH obtain ps ss where "cs = ps @ sub @ ss" by blast
      then have "c # cs = (c # ps) @ sub @ ss" by simp
      then show ?thesis by blast
    qed
  next
    assume "\<exists>ps ss. c # cs = ps @ sub @ ss"
    then obtain ps ss where e: "c # cs = ps @ sub @ ss" by blast
    show "contains sub (c # cs)"
    proof (cases ps)
      case Nil
      with e have "starts_with sub (c # cs)" by (auto simp: starts_with_iff)
      then show ?thesis by simp
    next
      case (Cons q qs)
      with e have "cs = qs @ sub @ ss" by simp
      with Cons.IH have "contains sub cs" by blast
      then show ?thesis by simp
    qed
  qed
qed

lemma color_of_distinct: "color_of ''trigger'' \<noteq> color_of ''action''"
  by (simp add: color_of_known)

text \<open>
  Claim C5. For every type tag, \<^verbatim>\<open>_get_node_color\<close> answers with the colour of the
  category that the ordered rule list gives by first match (trigger, then condition,
  then function, then action, else default); it answers for every string; and a tag
  whose lower-cased form contains both \<open>webhook\<close> and \<open>trigger\<close> gets the colour of the
  trigger category, which is not the colour of the action category.
\<close>

theorem classifier_first_match:
  "get_node_color (JStr tag) = color_of (category_name (classify tag))
   \<and> (\<exists>c. get_node_color (JStr tag) = Inr c)
   \<and> (contains ''webhook'' (lower tag) \<and> contains ''trigger'' (lower tag)
        \<longrightarrow> get_node_color (JStr tag) = Inr ''#ff6b6b''
            \<and> get_node_color (JStr tag) \<noteq> color_of ''action'')"
proof (intro conjI impI)
  show "get_node_color (JStr tag) = color_of (category_name (classify tag))"
    by (simp add: classify_def classifier_rules_def)
  show "\<exists>c. get_node_color (JStr tag) = Inr c" by (rule get_node_color_total)
next
  assume a: "contains ''webhook'' (lower tag) \<and> contains ''trigger'' (lower tag)"
  then show "get_node_color (JStr tag) = Inr ''#ff6b6b''" by (simp add: color_of_known)
  with a show "get_node_color (JStr tag) \<noteq> color_of ''action''" by (simp add: color_of_known)
qed

text \<open>The tag \<open>Webhook Trigger\<close>.\<close>

theorem classifier_first_match_witness:
  "contains ''webhook'' (lower ''Webhook Trigger'')
   \<and> contains ''trigger'' (lower ''Webhook Trigger'')
   \<and> get_node_color (JStr ''Webhook Trigger'') = Inr ''#ff6b6b''
   \<and> get_node_color (JStr ''Webhook Trigger'') \<noteq> color_of ''action''"
proof -
  have h: "contains ''webhook'' (lower ''Webhook Trigger'')
           \<and> contains ''trigger'' (lower ''Webhook Trigger'')"
    by code_simp
  from classifier_first_match [of "''Webhook Trigger''"] h show ?thesis by blast
qed


section \<open>Resolved coordinates\<close>

lemma map_of_fst_snd: "map_of (map (\<lambda>ka. (fst ka, f (snd ka))) ps) k = map_option f (map_of ps k)"
  by (induction ps) auto

lemma map_of_node_pos:
  "map_of (get_node_attributes_pos G) k = map_option pos (map_of (g_node G) k)"
  by (simp add: get_node_attributes_pos_def map_of_fst_snd)

lemma resolve_pos_nonempty:
  "g_node G \<noteq> [] \<Longrightarrow> resolve_pos G = Positions (get_node_attributes_pos G)"
  by (simp add: resolve_pos_def get_node_attributes_pos_def Let_def)

lemma built_last:
  assumes "create_workflow_graph (JObj doc) = Inr G"
    and "map_of doc ''nodes'' = Some (JList (pre @ JObj kvs # post))"
    and "\<forall>kvs'. JObj kvs' \<in> set post
           \<longrightarrow> hash_key (dict_get kvs' ''id'' JNull) \<noteq> hash_key (dict_get kvs ''id'' JNull)"
  shows "\<exists>k a. hash_key (dict_get kvs ''id'' JNull) = Some k
           \<and> node_args (JObj kvs) = Inr (dict_get kvs ''id'' JNull, a)
           \<and> map_of (g_node G) k = Some a
           \<and> resolve_pos G = Positions (get_node_attributes_pos G)"
proof -
  let ?ns = "pre @ JObj kvs # post"
  from assms(2) have it: "py_iter (dict_get doc ''nodes'' (JList [])) = Inr ?ns"
    by (simp add: dict_get_def)
  from assms(1) obtain doc' ns' G1 where d: "JObj doc = JObj doc'"
    and n: "py_iter (dict_get doc' ''nodes'' (JList [])) = Inr ns'"
    and a: "add_nodes DiGraph ns' = Inr G1" and g: "g_node G = g_node G1"
    by (rule built_graph)
  from d n it have e: "ns' = ?ns" by simp
  have "JObj kvs \<in> set ?ns" by simp
  from built_nodes_ok [OF assms(1) it this] obtain a0
    where na: "node_args (JObj kvs) = Inr (dict_get kvs ''id'' JNull, a0)"
      and rk: "real_key (dict_get kvs ''id'' JNull)"
    by auto
  from rk obtain k where k: "hash_key (dict_get kvs ''id'' JNull) = Some k"
    by (auto simp: real_key_def split: option.splits)
  have later: "\<forall>d'\<in>set post. \<forall>i' a'. node_args d' = Inr (i', a') \<longrightarrow> hash_key i' \<noteq> Some k"
  proof (intro ballI allI impI)
    fix d' i' a'
    assume m: "d' \<in> set post" and r: "node_args d' = Inr (i', a')"
    from r obtain kvs' where o: "d' = JObj kvs'" by (auto dest: node_args_dict)
    with r have "i' = dict_get kvs' ''id'' JNull" by (auto dest: node_args_id)
    with assms(3) m o k show "hash_key i' \<noteq> Some k" by auto
  qed
  from a e have "add_nodes DiGraph (pre @ JObj kvs # post) = Inr G1" by simp
  from add_nodes_last [OF this na k later] g have m: "map_of (g_node G) k = Some a0" by simp
  then have "g_node G \<noteq> []" by auto
  with k na m show ?thesis by (simp add: resolve_pos_nonempty)
qed

text \<open>
  Claim C7. Let every descriptor of the node list carry a position of two entries, and
  take a descriptor with position \<open>[px, py]\<close> that no later descriptor overwrites (none
  after it has the same identifier). In the graph that is built, the coordinates that
  the renderer resolves give the node of this descriptor exactly
  \<open>(x / 100, - y / 100)\<close>, for the numbers \<open>x\<close> and \<open>y\<close> that \<open>px\<close> and \<open>py\<close> hold.
\<close>

theorem authored_positions_transformed:
  assumes "create_workflow_graph (JObj doc) = Inr G"
    and "map_of doc ''nodes'' = Some (JList (pre @ JObj kvs # post))"
    and "\<forall>d\<in>set (pre @ JObj kvs # post).
           \<exists>kvs' p0 p1. d = JObj kvs' \<and> map_of kvs' ''position'' = Some (JList [p0, p1])"
    and "\<forall>kvs'. JObj kvs' \<in> set post
           \<longrightarrow> hash_key (dict_get kvs' ''id'' JNull) \<noteq> hash_key (dict_get kvs ''id'' JNull)"
    and "map_of kvs ''position'' = Some (JList [px, py])"
  shows "\<exists>p k x y. resolve_pos G = Positions p
           \<and> hash_key (dict_get kvs ''id'' JNull) = Some k
           \<and> to_num px = Inr x \<and> to_num py = Inr y
           \<and> map_of p k = Some (x / 100, - y / 100)"
proof -
  from built_last [OF assms(1,2,4)] obtain k a
    where k: "hash_key (dict_get kvs ''id'' JNull) = Some k"
      and na: "node_args (JObj kvs) = Inr (dict_get kvs ''id'' JNull, a)"
      and m: "map_of (g_node G) k = Some a"
      and r: "resolve_pos G = Positions (get_node_attributes_pos G)"
    by blast
  from assms(5) have "dict_get kvs ''position'' (JList [JInt 0, JInt 0]) = JList (px # py # [])"
    by (simp add: dict_get_def)
  from node_args_pos [OF na this] obtain x y
    where xy: "to_num px = Inr x" "to_num py = Inr y" "pos a = (x / 100, - y / 100)"
    by blast
  from m xy(3) have "map_of (get_node_attributes_pos G) k = Some (x / 100, - y / 100)"
    by (simp add: map_of_node_pos)
  with r k xy show ?thesis by blast
qed

text \<open>Two nodes with positions \<open>[100, 200]\<close> and \<open>[300, -50]\<close>; the second is looked at.\<close>

theorem authored_positions_transformed_witness:
  "\<exists>p k x y. resolve_pos \<lparr>g_node =
        [(KStr ''a'', \<lparr>label = JStr ''Unnamed'', ntype = JStr ''unknown'', pos = (1, - 2),
             color = ''#95a5a6''\<rparr>),
         (KStr ''b'', \<lparr>label = JStr ''Unnamed'', ntype = JStr ''unknown'', pos = (3, 1 / 2),
             color = ''#95a5a6''\<rparr>)],
        g_edge = []\<rparr> = Positions p
     \<and> hash_key (dict_get [(''id'', JStr ''b''), (''position'', JList [JInt 300, JInt (- 50)])] ''id'' JNull) = Some k
     \<and> to_num (JInt 300) = Inr x \<and> to_num (JInt (- 50)) = Inr y
     \<and> map_of p k = Some (x / 100, - y / 100)"
proof -
  let ?a = "JObj [(''id'', JStr ''a''), (''position'', JList [JInt 100, JInt 200])]"
  let ?kb = "[(''id'', JStr ''b''), (''position'', JList [JInt 300, JInt (- 50)])]"
  let ?doc = "[(''nodes'', JList [?a, JObj ?kb])]"
  have h1: "create_workflow_graph (JObj ?doc) = Inr \<lparr>g_node =
        [(KStr ''a'', \<lparr>label = JStr ''Unnamed'', ntype = JStr ''unknown'', pos = (1, - 2),
             color = ''#95a5a6''\<rparr>),
         (KStr ''b'', \<lparr>label = JStr ''Unnamed'', ntype = JStr ''unknown'', pos = (3, 1 / 2),
             color = ''#95a5a6''\<rparr>)],
        g_edge = []\<rparr>"
    by code_simp
  have h2: "map_of ?doc ''nodes'' = Some (JList ([?a] @ JObj ?kb # []))"
    by simp
  have h3: "\<forall>d\<in>set ([?a] @ JObj ?kb # []).
           \<exists>kvs' p0 p1. d = JObj kvs' \<and> map_of kvs' ''position'' = Some (JList [p0, p1])"
    by simp
  have h4: "\<forall>kvs'. JObj kvs' \<in> set []
           \<longrightarrow> hash_key (dict_get kvs' ''id'' JNull) \<noteq> hash_key (dict_get ?kb ''id'' JNull)"
    by simp
  have h5: "map_of ?kb ''position'' = Some (JList [JInt 300, JInt (- 50)])"
    by simp
  show ?thesis by (rule authored_positions_transformed [OF h1 h2 h3 h4 h5])
qed

text \<open>
  Claim C6, against the code. The comment in the primary renderer announces the positions
  of the document where they are available and the spring layout otherwise, and the
  branch that asks for the spring layout is there. But the node loop stores a \<^verbatim>\<open>pos\<close>
  attribute for every node, computed from the default \<open>[0, 0]\<close> when the descriptor has
  no position, so the dict of positions is not empty and the branch is not taken. For
  the document with two nodes and no position at all the renderer draws both nodes at
  the origin, and for the document in which only the first of two nodes has a position
  it draws the first at the transform of that position and the second at the origin. In
  neither case is a layout computed.
\<close>

theorem spring_layout_not_reached:
  "visualize_workflow_matplotlib \<lparr>mpl_ok = True, save_ok = True\<rparr>
     (JObj [(''nodes'', JList [JObj [(''id'', JStr ''a'')], JObj [(''id'', JStr ''b'')]])])
     (Some ''out.png'') False
   = (Some ''out.png'',
      [Draw_graph (Positions [(KStr ''a'', (0, 0)), (KStr ''b'', (0, 0))]),
       Write_file ''out.png''])
   \<and> visualize_workflow_matplotlib \<lparr>mpl_ok = True, save_ok = True\<rparr>
     (JObj [(''nodes'', JList
        [JObj [(''id'', JStr ''a''), (''position'', JList [JInt 100, JInt 200])],
         JObj [(''id'', JStr ''b'')]])])
     (Some ''out.png'') False
   = (Some ''out.png'',
      [Draw_graph (Positions [(KStr ''a'', (1, - 2)), (KStr ''b'', (0, 0))]),
       Write_file ''out.png''])"
  by code_simp

section \<open>The fallback renderer and the empty graph\<close>

lemma rectangles_append: "rectangles (xs @ ys) = rectangles xs @ rectangles ys"
  by (simp add: rectangles_def)

lemma draw_node_rectangles:
  "length (rectangles (fst (draw_node cols i node))) \<le> 1
   \<and> (snd (draw_node cols i node) \<longrightarrow> length (rectangles (fst (draw_node cols i node))) = 1)"
  by (simp add: draw_node_def rectangles_def Let_def split: sum.splits json.splits)

lemma draw_nodes_rectangles:
  "length (rectangles (fst (draw_nodes cols i ns))) \<le> length ns
   \<and> (snd (draw_nodes cols i ns) \<longrightarrow> length (rectangles (fst (draw_nodes cols i ns))) = length ns)"
proof (induction ns arbitrary: i)
  case Nil
  then show ?case by (simp add: rectangles_def)
next
  case (Cons node ns)
  obtain evs ok where d: "draw_node cols i node = (evs, ok)" by (cases "draw_node cols i node")
  obtain evs' ok' where r: "draw_nodes cols (Suc i) ns = (evs', ok')"
    by (cases "draw_nodes cols (Suc i) ns")
  from draw_node_rectangles [of cols i node] d
  have 1: "length (rectangles evs) \<le> 1" "ok \<longrightarrow> length (rectangles evs) = 1" by simp_all
  from Cons.IH [of "Suc i"] r
  have 2: "length (rectangles evs') \<le> length ns" "ok' \<longrightarrow> length (rectangles evs') = length ns"
    by simp_all
  show ?case
  proof (cases ok)
    case True
    with d r 1 2 show ?thesis by (simp add: rectangles_append)
  next
    case False
    with d 1 show ?thesis by simp
  qed
qed

text \<open>
  Claim C8. For a document whose \<^verbatim>\<open>nodes\<close> entry is a list of \<open>N\<close> descriptors,
  \<^verbatim>\<open>create_simple_diagram\<close> draws at most \<open>min N 20\<close> node rectangles, whatever the
  environment, the output path and the image size are; when it answers \<^verbatim>\<open>True\<close> it has
  drawn exactly that many.
\<close>

theorem fallback_at_most_20:
  assumes "py_get workflow_data ''nodes'' (JList []) = Inr (JList ns)"
  shows "length (rectangles (snd (create_simple_diagram E workflow_data output_path w h)))
           \<le> min (length ns) 20
       \<and> (fst (create_simple_diagram E workflow_data output_path w h)
            \<longrightarrow> length (rectangles (snd (create_simple_diagram E workflow_data output_path w h)))
                 = min (length ns) 20)"
proof -
  let ?cols = "max 1 ((w - 2 * 20) div (120 + 20))"
  obtain evs ok where d: "draw_nodes ?cols 0 (take 20 ns) = (evs, ok)"
    by (cases "draw_nodes ?cols 0 (take 20 ns)")
  from draw_nodes_rectangles [of ?cols 0 "take 20 ns"] d
  have r: "length (rectangles evs) \<le> min (length ns) 20"
    "ok \<longrightarrow> length (rectangles evs) = min (length ns) 20"
    by (simp_all add: min.commute)
  have e: "rectangles [] = []" "rectangles [Write_file output_path] = []"
    by (simp_all add: rectangles_def)
  show ?thesis
  proof (cases ok)
    case True
    with assms d r e show ?thesis
      by (simp add: create_simple_diagram_def Let_def rectangles_append)
  next
    case False
    with assms d r e show ?thesis
      by (simp add: create_simple_diagram_def Let_def)
  qed
qed

text \<open>A document with 25 descriptors on the default canvas.\<close>

theorem fallback_at_most_20_witness:
  "fst (create_simple_diagram \<lparr>mpl_ok = True, save_ok = True\<rparr>
      (JObj [(''nodes'', JList (replicate 25 (JObj [])))]) ''out.png'' 800 600)
   \<and> length (rectangles (snd (create_simple_diagram \<lparr>mpl_ok = True, save_ok = True\<rparr>
      (JObj [(''nodes'', JList (replicate 25 (JObj [])))]) ''out.png'' 800 600)))
     \<le> min (length (replicate 25 (JObj []))) 20
   \<and> length (rectangles (snd (create_simple_diagram \<lparr>mpl_ok = True, save_ok = True\<rparr>
      (JObj [(''nodes'', JList (replicate 25 (JObj [])))]) ''out.png'' 800 600)))
     = min (length (replicate 25 (JObj []))) 20"
proof -
  have h: "py_get (JObj [(''nodes'', JList (replicate 25 (JObj [])))]) ''nodes'' (JList [])
             = Inr (JList (replicate 25 (JObj [])))"
    by (simp add: dict_get_def)
  have t: "fst (create_simple_diagram \<lparr>mpl_ok = True, save_ok = True\<rparr>
      (JObj [(''nodes'', JList (replicate 25 (JObj [])))]) ''out.png'' 800 600)"
    by code_simp
  from fallback_at_most_20 [OF h, where E = "\<lparr>mpl_ok = True, save_ok = True\<rparr>"
      and output_path = "''out.png''" and w = 800 and h = 600] t
  show ?thesis by blast
qed

lemma py_iter_empty: "py_iter v = Inr [] \<Longrightarrow> \<not> truthy v"
  by (cases v) auto

lemma empty_graph_nodes:
  assumes "create_workflow_graph workflow_data = Inr G" and "g_node G = []"
  shows "\<exists>doc. workflow_data = JObj doc \<and> \<not> truthy (dict_get doc ''nodes'' (JList []))"
proof -
  from assms(1) obtain doc ns G1 where d: "workflow_data = JObj doc"
    and n: "py_iter (dict_get doc ''nodes'' (JList [])) = Inr ns"
    and a: "add_nodes DiGraph ns = Inr G1" and g: "g_node G = g_node G1"
    by (rule built_graph)
  from add_nodes_nonempty [OF a] g assms(2) have "ns = []" by auto
  with n have "\<not> truthy (dict_get doc ''nodes'' (JList []))" by (simp add: py_iter_empty)
  with d show ?thesis by blast
qed

text \<open>
  Claim C9. For a document whose built graph has no node, the primary renderer answers
  \<^verbatim>\<open>None\<close> and the fallback renderer answers \<^verbatim>\<open>False\<close>, both without any event and so
  before any file is written; \<^verbatim>\<open>visualize_file\<close> answers \<^verbatim>\<open>None\<close>, and \<^verbatim>\<open>main\<close> ends
  with status 1 and nothing written.
\<close>

theorem empty_graph_fails:
  assumes "create_workflow_graph workflow_data = Inr G" and "g_node G = []"
  shows "visualize_workflow_matplotlib E workflow_data output_path show = (None, [])
       \<and> create_simple_diagram E workflow_data out w h = (False, [])
       \<and> visualize_file E with_suffix (Document workflow_data) file_path output_path show
           = (None, [])
       \<and> main E with_suffix (Document workflow_data) a = (1, [])"
proof -
  have p: "visualize_workflow_matplotlib E workflow_data op sh = (None, [])" for op sh
    using assms by (simp add: visualize_workflow_matplotlib_def)
  from empty_graph_nodes [OF assms] obtain doc where d: "workflow_data = JObj doc"
    and t: "\<not> truthy (dict_get doc ''nodes'' (JList []))"
    by blast
  have f: "create_simple_diagram E workflow_data o' w' h' = (False, [])" for o' w' h'
    using d t by (simp add: create_simple_diagram_def)
  have v: "visualize_file E with_suffix (Document workflow_data) fp op sh = (None, [])"
    for fp op sh
    by (simp add: visualize_file_def p f split: option.splits)
  have m: "main E with_suffix (Document workflow_data) a = (1, [])"
    by (simp add: main_def v split: option.splits)
  from p f v m show ?thesis by simp
qed

text \<open>The document with an empty node list, in an environment where nothing else fails.\<close>

theorem empty_graph_fails_witness:
  "visualize_workflow_matplotlib \<lparr>mpl_ok = True, save_ok = True\<rparr> (JObj [(''nodes'', JList [])]) (Some ''wf.png'') False = (None, [])
   \<and> create_simple_diagram \<lparr>mpl_ok = True, save_ok = True\<rparr> (JObj [(''nodes'', JList [])]) ''wf.png'' 800 600 = (False, [])
   \<and> visualize_file \<lparr>mpl_ok = True, save_ok = True\<rparr> (\<lambda>p s. Some (p @ s)) (Document (JObj [(''nodes'', JList [])]))
         ''wf.json'' (Some ''wf.png'') False
       = (None, [])
   \<and> main \<lparr>mpl_ok = True, save_ok = True\<rparr> (\<lambda>p s. Some (p @ s)) (Document (JObj [(''nodes'', JList [])]))
         \<lparr>arg_input = ''wf.json'', arg_output = None, arg_no_show = True, arg_width = 800,
          arg_height = 600, arg_format = ''png''\<rparr>
       = (1, [])"
proof -
  have h1: "create_workflow_graph (JObj [(''nodes'', JList [])]) = Inr \<lparr>g_node = [], g_edge = []\<rparr>"
    by code_simp
  have h2: "g_node \<lparr>g_node = [], g_edge = []\<rparr> = []"
    by simp
  show ?thesis by (rule empty_graph_fails [OF h1 h2])
qed

end
